theory Spec2Isabelle
  imports Complex_Main
begin

section \<open>CustomProjection: values, objects and errors\<close>

text \<open>
  The embedding follows \<^verbatim>\<open>Source/Core/CustomProjection.js\<close>. JavaScript values are
  a datatype; objects that are passed by reference (coordinates, adapters, promises)
  live in stores indexed by their reference, so that ``the same object'' is equality
  of references. Numbers are idealised as reals: no claim below depends on rounding.

  The JavaScript file imports eleven modules that are not part of the source. \<^verbatim>\<open>defined\<close>,
  \<^verbatim>\<open>defaultValue\<close>, \<^verbatim>\<open>Check\<close>, \<^verbatim>\<open>DeveloperError\<close>, the constructors
  \<^verbatim>\<open>Cartesian3\<close> and \<^verbatim>\<open>Cartographic\<close>, \<^verbatim>\<open>Ellipsoid.WGS84\<close> and \<^verbatim>\<open>when\<close> are
  modelled below, each where it is first used; \<^verbatim>\<open>getAbsoluteUri\<close>, \<^verbatim>\<open>importScripts\<close>
  and the worker test are parameters; what \<^verbatim>\<open>Resource.fetchJsonp\<close> brings back is an
  event of the environment.
\<close>

datatype val =
    VUndefined
  | VNull
  | VBool bool
  | VNum real
  | VStr string
  | VEllipsoid real real real
  | VRef nat

datatype jsobj =
    Cartesian3 real real real
  | Cartographic real real real

datatype exn =
    DeveloperError string
  | ReferenceError string
  | TypeError string
  | ExternalError string

text \<open>
  Modelled from the spec: \<^verbatim>\<open>defined\<close> and \<^verbatim>\<open>defaultValue\<close> are not part of the source.
  \<^verbatim>\<open>defined(value)\<close>: neither undefined nor null.
\<close>

definition defined :: "val \<Rightarrow> bool" where
  "defined v = (v \<noteq> VUndefined \<and> v \<noteq> VNull)"

text \<open>\<^verbatim>\<open>defaultValue(a, b)\<close>: the first argument unless it is undefined or null.\<close>

definition defaultValue :: "val \<Rightarrow> val \<Rightarrow> val" where
  "defaultValue a b = (if defined a then a else b)"

text \<open>
  Modelled from the spec: \<^verbatim>\<open>Ellipsoid\<close> is not part of the source; the default is ``a
  standard reference ellipsoid'', here WGS84 by its three radii.
\<close>

definition Ellipsoid_WGS84 :: val where
  "Ellipsoid_WGS84 = VEllipsoid 6378137 6378137 (63567523142451793 / 10000000000)"

text \<open>
  Modelled from the spec: the module \<^verbatim>\<open>Check\<close> is imported by the source but is not
  part of it; the spec calls these helpers ``simple precondition checks''. The call
  sites name the checks: \<^verbatim>\<open>Check.typeOf.string(name, test)\<close> throws a DeveloperError
  unless the JavaScript type of \<^verbatim>\<open>test\<close> is string, and \<^verbatim>\<open>Check.defined(name, test)\<close>
  throws a DeveloperError unless \<^verbatim>\<open>test\<close> is defined. The source calls no check of
  emptiness, and the empty string has the type string. The result is the error thrown,
  if any.
\<close>

definition Check_typeOf_string :: "string \<Rightarrow> val \<Rightarrow> exn option" where
  "Check_typeOf_string name test =
     (case test of
        VStr s \<Rightarrow> None
      | _ \<Rightarrow> Some (DeveloperError (''Expected '' @ name @ '' to be typeof string'')))"

definition Check_defined :: "string \<Rightarrow> val \<Rightarrow> exn option" where
  "Check_defined name test =
     (if defined test then None
      else Some (DeveloperError (name @ '' is required, actual value was undefined'')))"

text \<open>
  A projection function of the external module: it receives the input coordinate and
  the output object, may write to the object store, and returns nothing or throws.
  What the completion callback receives is such a function or any other value.
  External code acts on the store of coordinate objects; the underscore fields of an
  adapter, the cache and the deferreds are written by this file alone.
\<close>

type_synonym pfun = "val \<Rightarrow> val \<Rightarrow> jsobj list \<Rightarrow> exn option \<times> jsobj list"

datatype cbarg =
    PFun pfun
  | NotFun val

datatype rval =
    RAdapter nat
  | RUndefined

text \<open>
  The completion callback is a closure over the adapter, the deferred and the value
  the deferred is resolved with (the adapter on a cache hit, nothing on a miss).
\<close>

datatype callback = Callback (cb_adapter: nat) (cb_deferred: nat) (cb_value: rval)

text \<open>
  A factory of the external module, by what it does when called with the completion
  callback: the calls of the callback it makes before it returns, and the exception
  it then throws, if any. Calls it makes later are events of the environment.
\<close>

datatype factory = Factory "(cbarg \<times> cbarg) list" "exn option"

datatype slotval =
    SFactory factory
  | SValue val

fun defined_slot :: "slotval \<Rightarrow> bool" where
  "defined_slot (SFactory f) = True"
| "defined_slot (SValue v) = defined v"

text \<open>
  A promise cell is pending, resolved or rejected; \<open>ThenReturn d a\<close> is the promise of
  \<^verbatim>\<open>fetch.then(... return deferred.promise ...).then(... return customProjection ...)\<close>
  after the first handler has returned: it follows deferred \<open>d\<close> and maps its value to
  adapter \<open>a\<close>.
\<close>

datatype pcell =
    Pending
  | Resolved rval
  | Rejected exn
  | ThenReturn nat nat

datatype action =
    FetchJsonp string
  | ImportScripts string
  | CachePut string
  | FactoryCall string
  | CallbackInvoked nat
  | ProjectCall val val
  | UnprojectCall val val

datatype lstatus = Fetching | Fetched | Done

record load =
  l_adapter :: nat
  l_url :: string
  l_name :: string
  l_deferred :: nat
  l_promise :: nat
  l_status :: lstatus

record adapter =
  a_ellipsoid :: val
  a_project :: cbarg
  a_unproject :: cbarg
  a_projectionName :: string
  a_url :: string
  a_ready :: bool
  a_readyPromise :: "nat option"

text \<open>
  The state: the module-level cache \<^verbatim>\<open>loadedProjectionFunctions\<close>, the global slot
  \<^verbatim>\<open>createProjectionFunctions\<close> (\<open>None\<close> when the identifier is not declared), the
  stores of adapters, promises and coordinate objects, the continuations registered on
  a fetch, the callbacks handed to external factories, and a trace of the calls made
  to collaborators (newest first).
\<close>

record world =
  loadedProjectionFunctions :: "string \<rightharpoonup> slotval"
  createProjectionFunctions :: "slotval option"
  adapters :: "adapter list"
  promises :: "pcell list"
  heap :: "jsobj list"
  loads :: "load list"
  handed :: "callback list"
  trace :: "action list"

section \<open>project and unproject\<close>

definition not_loaded :: exn where
  "not_loaded = DeveloperError
     ''CustomProjection is not loaded. User CustomProjection.readyPromise or wait for CustomProjection.ready to be true.''"

text \<open>
  In the source the two guards of \<^verbatim>\<open>project\<close> and \<^verbatim>\<open>unproject\<close> stand between the
  pragmas \<^verbatim>\<open>includeStart('debug', pragmas.debug)\<close> and \<^verbatim>\<open>includeEnd('debug')\<close>; the
  model is of the source as written, guards included.

  \<^verbatim>\<open>if (!defined(result)) { result = new C(); }\<close>: the fresh object gets the next
  reference of the object store. Modelled from the spec: the constructors
  \<^verbatim>\<open>Cartesian3\<close> and \<^verbatim>\<open>Cartographic\<close> are not part of the source; called without
  arguments they give an object of their class with all three coordinates zero.
\<close>

definition result_or_new :: "jsobj \<Rightarrow> val \<Rightarrow> world \<Rightarrow> val \<times> world" where
  "result_or_new fresh result w =
     (if \<not> defined result
      then (VRef (length (heap w)), w\<lparr>heap := heap w @ [fresh]\<rparr>)
      else (result, w))"

text \<open>
  The call \<^verbatim>\<open>this._project(cartographic, result)\<close>: a TypeError when the stored value
  is not a function.
\<close>

definition delegate :: "cbarg \<Rightarrow> action \<Rightarrow> val \<Rightarrow> val \<Rightarrow> world \<Rightarrow> (exn + val) \<times> world" where
  "delegate f act x result w =
     (case f of
        NotFun v \<Rightarrow> (Inl (TypeError ''not a function''), w)
      | PFun g \<Rightarrow>
          (case g x result (heap w) of
             (Some e, h) \<Rightarrow> (Inl e, w\<lparr>heap := h, trace := act # trace w\<rparr>)
           | (None, h) \<Rightarrow> (Inr result, w\<lparr>heap := h, trace := act # trace w\<rparr>)))"

definition project :: "world \<Rightarrow> nat \<Rightarrow> val \<Rightarrow> val \<Rightarrow> (exn + val) \<times> world" where
  "project w this cartographic result =
     (if \<not> a_ready (adapters w ! this) then (Inl not_loaded, w)
      else case Check_defined ''cartographic'' cartographic of
        Some e \<Rightarrow> (Inl e, w)
      | None \<Rightarrow>
          (case result_or_new (Cartesian3 0 0 0) result w of
             (res, w1) \<Rightarrow>
               delegate (a_project (adapters w ! this)) (ProjectCall cartographic res)
                 cartographic res w1))"

definition unproject :: "world \<Rightarrow> nat \<Rightarrow> val \<Rightarrow> val \<Rightarrow> (exn + val) \<times> world" where
  "unproject w this cartesian result =
     (if \<not> a_ready (adapters w ! this) then (Inl not_loaded, w)
      else case Check_defined ''cartesian'' cartesian of
        Some e \<Rightarrow> (Inl e, w)
      | None \<Rightarrow>
          (case result_or_new (Cartographic 0 0 0) result w of
             (res, w1) \<Rightarrow>
               delegate (a_unproject (adapters w ! this)) (UnprojectCall cartesian res)
                 cartesian res w1))"

section \<open>Promises\<close>

text \<open>
  Modelled from the spec: \<^verbatim>\<open>ThirdParty/when\<close> is not part of the source. The spec
  describes its futures as ``states {pending, resolved(value), rejected(error)},
  resolved/rejected at most once; second resolution attempts are no-ops'', and a
  handler of \<^verbatim>\<open>then\<close> that throws rejects the promise \<^verbatim>\<open>then\<close> returned.
  \<open>new_promise\<close> is \<^verbatim>\<open>when.defer()\<close> (or the promise a \<^verbatim>\<open>then\<close> chain returns).
\<close>

definition new_promise :: "world \<Rightarrow> nat \<times> world" where
  "new_promise w = (length (promises w), w\<lparr>promises := promises w @ [Pending]\<rparr>)"

definition resolve :: "nat \<Rightarrow> rval \<Rightarrow> world \<Rightarrow> world" where
  "resolve d v w =
     (if d < length (promises w) \<and> promises w ! d = Pending
      then w\<lparr>promises := (promises w)[d := Resolved v]\<rparr>
      else w)"

definition settle :: "nat \<Rightarrow> pcell \<Rightarrow> world \<Rightarrow> world" where
  "settle p c w = w\<lparr>promises := (promises w)[p := c]\<rparr>"

text \<open>What a caller waiting on promise \<open>p\<close> observes.\<close>

definition promise_state :: "world \<Rightarrow> nat \<Rightarrow> pcell" where
  "promise_state w p =
     (case promises w ! p of
        ThenReturn d a \<Rightarrow>
          (case promises w ! d of
             Resolved v \<Rightarrow> Resolved (RAdapter a)
           | Rejected e \<Rightarrow> Rejected e
           | _ \<Rightarrow> Pending)
      | c \<Rightarrow> c)"

section \<open>buildCustomProjection and the constructor\<close>

text \<open>
  The collaborators the source takes from its environment: \<^verbatim>\<open>getAbsoluteUri\<close>,
  the test \<^verbatim>\<open>self instanceof WorkerGlobalScope\<close>, and what \<^verbatim>\<open>importScripts(url)\<close>
  does. A script load fails with an error, or the script runs and may write the global
  \<^verbatim>\<open>createProjectionFunctions\<close>.
\<close>

datatype load_outcome =
    LoadFails exn
  | Executes "slotval option"

record env =
  getAbsoluteUri :: "string \<Rightarrow> string"
  inWorker :: bool
  importScripts :: "string \<Rightarrow> load_outcome"

definition run_script :: "slotval option \<Rightarrow> world \<Rightarrow> world" where
  "run_script eff w =
     (case eff of
        None \<Rightarrow> w
      | Some v \<Rightarrow> w\<lparr>createProjectionFunctions := Some v\<rparr>)"

text \<open>
  The body of the completion callback, the same on both paths but for the value the
  deferred is resolved with:
  \<^verbatim>\<open>customProjection._project = project; customProjection._unproject = unproject;
  customProjection._ready = true; deferred.resolve(...)\<close>.
\<close>

definition invoke_callback :: "callback \<Rightarrow> cbarg \<Rightarrow> cbarg \<Rightarrow> world \<Rightarrow> world" where
  "invoke_callback cb pr un w =
     resolve (cb_deferred cb) (cb_value cb)
       (w\<lparr>adapters := (adapters w)[cb_adapter cb :=
              (adapters w ! cb_adapter cb)\<lparr>a_project := pr, a_unproject := un, a_ready := True\<rparr>],
          trace := CallbackInvoked (cb_adapter cb) # trace w\<rparr>)"

fun invoke_all :: "callback \<Rightarrow> (cbarg \<times> cbarg) list \<Rightarrow> world \<Rightarrow> world" where
  "invoke_all cb [] w = w"
| "invoke_all cb ((pr, un) # cs) w = invoke_all cb cs (invoke_callback cb pr un w)"

text \<open>
  Calling the value \<open>f\<close> with the callback: a TypeError when \<open>f\<close> is not a function;
  otherwise the factory gets hold of the callback, makes its calls and returns or throws.
\<close>

definition call_factory :: "slotval \<Rightarrow> string \<Rightarrow> callback \<Rightarrow> world \<Rightarrow> exn option \<times> world" where
  "call_factory f name cb w =
     (case f of
        SValue v \<Rightarrow> (Some (TypeError ''not a function''), w)
      | SFactory (Factory calls ex) \<Rightarrow>
          (ex, invoke_all cb calls (w\<lparr>handed := cb # handed w, trace := FactoryCall name # trace w\<rparr>)))"

definition cache_lookup :: "world \<Rightarrow> string \<Rightarrow> slotval option" where
  "cache_lookup w name =
     (case loadedProjectionFunctions w name of
        None \<Rightarrow> None
      | Some f \<Rightarrow> if defined_slot f then Some f else None)"

definition register_load :: "nat \<Rightarrow> string \<Rightarrow> string \<Rightarrow> nat \<Rightarrow> lstatus \<Rightarrow> world \<Rightarrow> (exn + nat) \<times> world" where
  "register_load a url name d st w =
     (case new_promise w of
        (p, w1) \<Rightarrow>
          (Inr p, w1\<lparr>loads := loads w1 @
             [\<lparr>l_adapter = a, l_url = url, l_name = name, l_deferred = d, l_promise = p,
               l_status = st\<rparr>]\<rparr>))"

definition buildCustomProjection :: "env \<Rightarrow> world \<Rightarrow> nat \<Rightarrow> string \<Rightarrow> string \<Rightarrow> (exn + nat) \<times> world" where
  "buildCustomProjection ev w customProjection url projectionName =
     (case new_promise w of
        (deferred, w1) \<Rightarrow>
          (case cache_lookup w1 projectionName of
             Some f \<Rightarrow>
               (case call_factory f projectionName
                       (Callback customProjection deferred (RAdapter customProjection)) w1 of
                  (Some e, w2) \<Rightarrow> (Inl e, w2)
                | (None, w2) \<Rightarrow> (Inr deferred, w2))
           | None \<Rightarrow>
               if inWorker ev then
                 (case importScripts ev url of
                    LoadFails e \<Rightarrow> (Inl e, w1\<lparr>trace := ImportScripts url # trace w1\<rparr>)
                  | Executes eff \<Rightarrow>
                      register_load customProjection url projectionName deferred Fetched
                        (run_script eff (w1\<lparr>trace := ImportScripts url # trace w1\<rparr>)))
               else
                 register_load customProjection url projectionName deferred Fetching
                   (w1\<lparr>trace := FetchJsonp url # trace w1\<rparr>)))"

text \<open>
  In \<open>buildCustomProjection\<close> the hit path returns the deferred itself, the miss path
  the promise of the \<^verbatim>\<open>then\<close> chain; either is the cell the caller waits on. A script
  that \<^verbatim>\<open>importScripts\<close> cannot load makes it throw, and the constructor with it.

  The constructor up to and including \<^verbatim>\<open>this._ready = false\<close>.
\<close>

definition init_adapter :: "env \<Rightarrow> string \<Rightarrow> string \<Rightarrow> val \<Rightarrow> adapter" where
  "init_adapter ev url projectionName ellipsoid =
     \<lparr>a_ellipsoid = defaultValue ellipsoid Ellipsoid_WGS84,
      a_project = NotFun VUndefined,
      a_unproject = NotFun VUndefined,
      a_projectionName = projectionName,
      a_url = getAbsoluteUri ev url,
      a_ready = False,
      a_readyPromise = None\<rparr>"

text \<open>
  The constructor: the two checks, the new object, \<open>buildCustomProjection\<close>, and the
  assignment of its result to \<^verbatim>\<open>this._readyPromise\<close>, which an exception skips. The
  last case of the definition cannot occur, both checks having passed.
\<close>

definition set_readyPromise :: "nat \<Rightarrow> nat \<Rightarrow> world \<Rightarrow> world" where
  "set_readyPromise this p w =
     w\<lparr>adapters := (adapters w)[this := (adapters w ! this)\<lparr>a_readyPromise := Some p\<rparr>]\<rparr>"

definition CustomProjection :: "env \<Rightarrow> world \<Rightarrow> val \<Rightarrow> val \<Rightarrow> val \<Rightarrow> (exn + nat) \<times> world" where
  "CustomProjection ev w url projectionName ellipsoid =
     (case Check_typeOf_string ''url'' url of
        Some e \<Rightarrow> (Inl e, w)
      | None \<Rightarrow>
     (case Check_typeOf_string ''projectionName'' projectionName of
        Some e \<Rightarrow> (Inl e, w)
      | None \<Rightarrow>
     (case (url, projectionName) of
        (VStr u, VStr n) \<Rightarrow>
          (case buildCustomProjection ev
                  (w\<lparr>adapters := adapters w @ [init_adapter ev u n ellipsoid]\<rparr>)
                  (length (adapters w)) (getAbsoluteUri ev u) n of
             (Inl e, w2) \<Rightarrow> (Inl e, w2)
           | (Inr p, w2) \<Rightarrow> (Inr (length (adapters w)), set_readyPromise (length (adapters w)) p w2))
      | _ \<Rightarrow> (Inl (TypeError ''not a string''), w))))"

subsection \<open>Accessors\<close>

definition ellipsoid :: "world \<Rightarrow> nat \<Rightarrow> val" where
  "ellipsoid w this = a_ellipsoid (adapters w ! this)"

definition isEquatorialCylindrical :: "world \<Rightarrow> nat \<Rightarrow> bool" where
  "isEquatorialCylindrical w this = False"

definition readyPromise :: "world \<Rightarrow> nat \<Rightarrow> nat option" where
  "readyPromise w this = a_readyPromise (adapters w ! this)"

definition url :: "world \<Rightarrow> nat \<Rightarrow> string" where
  "url w this = a_url (adapters w ! this)"

definition projectionName :: "world \<Rightarrow> nat \<Rightarrow> string" where
  "projectionName w this = a_projectionName (adapters w ! this)"

section \<open>What happens after construction\<close>

text \<open>
  The fetch started by \<^verbatim>\<open>Resource.fetchJsonp\<close> settles: it fails, which rejects the
  promise of the chain, or the script has run.
\<close>

definition set_status :: "nat \<Rightarrow> lstatus \<Rightarrow> world \<Rightarrow> world" where
  "set_status i st w = w\<lparr>loads := (loads w)[i := (loads w ! i)\<lparr>l_status := st\<rparr>]\<rparr>"

definition fetch_settles :: "nat \<Rightarrow> load_outcome \<Rightarrow> world \<Rightarrow> world" where
  "fetch_settles i outcome w =
     (if i < length (loads w) \<and> l_status (loads w ! i) = Fetching then
        (case outcome of
           LoadFails e \<Rightarrow> settle (l_promise (loads w ! i)) (Rejected e) (set_status i Done w)
         | Executes eff \<Rightarrow> run_script eff (set_status i Fetched w))
      else w)"

text \<open>
  The first \<^verbatim>\<open>then\<close> handler of the miss path, run once the fetch has resolved: read
  the global \<^verbatim>\<open>createProjectionFunctions\<close> (a ReferenceError when it is not declared),
  store it in the cache, call it with the callback, return \<^verbatim>\<open>deferred.promise\<close>. An
  exception in the handler rejects the promise of the chain.
\<close>

definition run_load :: "nat \<Rightarrow> world \<Rightarrow> world" where
  "run_load i w =
     (if i < length (loads w) \<and> l_status (loads w ! i) = Fetched then
        (case createProjectionFunctions w of
           None \<Rightarrow>
             settle (l_promise (loads w ! i))
               (Rejected (ReferenceError ''createProjectionFunctions is not defined''))
               (set_status i Done w)
         | Some f \<Rightarrow>
             (case call_factory f (l_name (loads w ! i))
                     (Callback (l_adapter (loads w ! i)) (l_deferred (loads w ! i)) RUndefined)
                     ((set_status i Done w)
                        \<lparr>loadedProjectionFunctions :=
                           (loadedProjectionFunctions w)(l_name (loads w ! i) \<mapsto> f),
                         trace := CachePut (l_name (loads w ! i)) # trace w\<rparr>) of
                (Some e, w2) \<Rightarrow> settle (l_promise (loads w ! i)) (Rejected e) w2
              | (None, w2) \<Rightarrow>
                  settle (l_promise (loads w ! i))
                    (ThenReturn (l_deferred (loads w ! i)) (l_adapter (loads w ! i))) w2))
      else w)"

text \<open>
  External code calls a completion callback it was handed earlier (a factory that
  finishes its set-up asynchronously).
\<close>

definition callback_fires :: "callback \<Rightarrow> cbarg \<Rightarrow> cbarg \<Rightarrow> world \<Rightarrow> world" where
  "callback_fires cb pr un w = (if cb \<in> set (handed w) then invoke_callback cb pr un w else w)"

datatype event =
    EConstruct val val val
  | EFetchSettles nat load_outcome
  | ERunLoad nat
  | ECallback callback cbarg cbarg
  | EProject nat val val
  | EUnproject nat val val
  | EScript "slotval option"

fun step :: "env \<Rightarrow> world \<Rightarrow> event \<Rightarrow> world" where
  "step ev w (EConstruct u n e) = snd (CustomProjection ev w u n e)"
| "step ev w (EFetchSettles i outcome) = fetch_settles i outcome w"
| "step ev w (ERunLoad i) = run_load i w"
| "step ev w (ECallback cb pr un) = callback_fires cb pr un w"
| "step ev w (EProject a c r) = (if a < length (adapters w) then snd (project w a c r) else w)"
| "step ev w (EUnproject a c r) = (if a < length (adapters w) then snd (unproject w a c r) else w)"
| "step ev w (EScript eff) = run_script eff w"

definition run :: "env \<Rightarrow> world \<Rightarrow> event list \<Rightarrow> world" where
  "run ev w es = foldl (step ev) w es"

text \<open>
  The state when the module has just been defined: \<^verbatim>\<open>loadedProjectionFunctions = {}\<close>.
  The cache is a plain object, so a look-up also finds what the object inherits (under
  names such as \<^verbatim>\<open>toString\<close>); where that matters the cache of the first state is
  left arbitrary.
\<close>

definition initial :: world where
  "initial =
     \<lparr>loadedProjectionFunctions = Map.empty, createProjectionFunctions = None,
      adapters = [], promises = [], heap = [], loads = [], handed = [], trace = []\<rparr>"

section \<open>The example of the documentation\<close>

text \<open>
  The factory \<^verbatim>\<open>simpleProjection\<close> of the documentation of \<^verbatim>\<open>CustomProjection~factory\<close>:
  \<^verbatim>\<open>result.x = cartographic.longitude * 6378137.0\<close> and so on, and the inverse; it calls
  the callback once before it returns. The functions are given on references to
  coordinate objects of the expected class; the example is not used on anything else.
\<close>

definition simple_project :: pfun where
  "simple_project cartographic result h =
     (case (cartographic, result) of
        (VRef i, VRef j) \<Rightarrow>
          (if i < length h \<and> j < length h then
             (case h ! i of
                Cartographic lon lat hgt \<Rightarrow>
                  (None, h[j := Cartesian3 (lon * 6378137) (lat * 6378137) hgt])
              | _ \<Rightarrow> (Some (ExternalError ''not a Cartographic''), h))
           else (Some (ExternalError ''dangling reference''), h))
      | _ \<Rightarrow> (Some (ExternalError ''not an object''), h))"

definition simple_unproject :: pfun where
  "simple_unproject cartesian result h =
     (case (cartesian, result) of
        (VRef i, VRef j) \<Rightarrow>
          (if i < length h \<and> j < length h then
             (case h ! i of
                Cartesian3 x y z \<Rightarrow>
                  (None, h[j := Cartographic (x / 6378137) (y / 6378137) z])
              | _ \<Rightarrow> (Some (ExternalError ''not a Cartesian3''), h))
           else (Some (ExternalError ''dangling reference''), h))
      | _ \<Rightarrow> (Some (ExternalError ''not an object''), h))"

definition simpleProjection :: factory where
  "simpleProjection = Factory [(PFun simple_project, PFun simple_unproject)] None"

text \<open>
  A host page (not a worker) at \<^verbatim>\<open>https://host/\<close>; an adapter constructed there for
  \<^verbatim>\<open>proj.js\<close> under the name \<^verbatim>\<open>simple\<close>; the same once the script has run, has
  registered \<^verbatim>\<open>simpleProjection\<close> and the handler of the fetch has run; and that state
  with two coordinate objects made by the caller.
\<close>

definition host :: env where
  "host = \<lparr>getAbsoluteUri = (\<lambda>u. ''https://host/'' @ u), inWorker = False,
           importScripts = (\<lambda>u. LoadFails (ExternalError ''NetworkError''))\<rparr>"

definition w_pending :: world where
  "w_pending = step host initial (EConstruct (VStr ''proj.js'') (VStr ''simple'') VUndefined)"

definition w_ready :: world where
  "w_ready = run host w_pending [EFetchSettles 0 (Executes (Some (SFactory simpleProjection))), ERunLoad 0]"

definition w_coords :: world where
  "w_coords = w_ready\<lparr>heap := [Cartographic 0 0 10, Cartesian3 1 2 3]\<rparr>"

section \<open>Auxiliary notions\<close>

text \<open>
  A piece of trace without a fetch and without an import.
\<close>

definition io_free :: "action list \<Rightarrow> bool" where
  "io_free ts = list_all (\<lambda>a. case a of FetchJsonp u \<Rightarrow> False | ImportScripts u \<Rightarrow> False | _ \<Rightarrow> True) ts"

text \<open>
  What every operation keeps of an adapter: its URL, name and ellipsoid, readiness once
  reached, and the readiness promise once stored. \<open>extends w w'\<close>: the adapters of \<open>w\<close> are still there in \<open>w'\<close>, kept so.
\<close>

definition keeps :: "adapter \<Rightarrow> adapter \<Rightarrow> bool" where
  "keeps a b = (a_url b = a_url a \<and> a_projectionName b = a_projectionName a \<and>
     a_ellipsoid b = a_ellipsoid a \<and> (a_ready a \<longrightarrow> a_ready b) \<and>
     (a_readyPromise a \<noteq> None \<longrightarrow> a_readyPromise b = a_readyPromise a))"

definition extends :: "world \<Rightarrow> world \<Rightarrow> bool" where
  "extends w w' = (length (adapters w) \<le> length (adapters w') \<and>
     (\<forall>i<length (adapters w). keeps (adapters w ! i) (adapters w' ! i)))"





text \<open>
  \<open>by_callback w w'\<close>: from \<open>w\<close> to \<open>w'\<close> the trace has grown by some entries, and whatever
  adapter is ready in \<open>w'\<close> and was not in \<open>w\<close>, and whatever promise cell is resolved in
  \<open>w'\<close> and was not in \<open>w\<close>, there is a call of the completion callback among these entries
  (for that adapter, in the first case).
\<close>

definition was_ready :: "world \<Rightarrow> nat \<Rightarrow> bool" where
  "was_ready w i = (i < length (adapters w) \<and> a_ready (adapters w ! i))"

definition was_resolved :: "world \<Rightarrow> nat \<Rightarrow> bool" where
  "was_resolved w d = (d < length (promises w) \<and> (\<exists>v. promises w ! d = Resolved v))"

definition by_callback :: "world \<Rightarrow> world \<Rightarrow> bool" where
  "by_callback w w' =
     (\<exists>ts. trace w' = ts @ trace w \<and>
        (\<forall>i. was_ready w' i \<longrightarrow> was_ready w i \<or> CallbackInvoked i \<in> set ts) \<and>
        (\<forall>d. was_resolved w' d \<longrightarrow> was_resolved w d \<or> (\<exists>i. CallbackInvoked i \<in> set ts)))"

section \<open>Well-behaved modules and the invariant of the loader\<close>










text \<open>
  A second adapter for the name \<^verbatim>\<open>simple\<close>, constructed once the first is ready.
\<close>

definition w_second :: world where
  "w_second = step host w_ready (EConstruct (VStr ''other.js'') (VStr ''simple'') VUndefined)"

section \<open>Properties\<close>

subsection \<open>The example, evaluated\<close>

lemmas evals = defined_def defaultValue_def Ellipsoid_WGS84_def Check_typeOf_string_def
  Check_defined_def not_loaded_def result_or_new_def delegate_def project_def unproject_def
  new_promise_def resolve_def settle_def promise_state_def run_script_def invoke_callback_def
  call_factory_def cache_lookup_def register_load_def buildCustomProjection_def
  init_adapter_def set_readyPromise_def CustomProjection_def ellipsoid_def
  isEquatorialCylindrical_def readyPromise_def url_def projectionName_def set_status_def
  fetch_settles_def run_load_def callback_fires_def run_def initial_def
  simple_project_def simple_unproject_def simpleProjection_def host_def w_pending_def
  w_ready_def io_free_def

lemma w_pending_adapters: "adapters w_pending = [init_adapter host ''proj.js'' ''simple'' VUndefined\<lparr>a_readyPromise := Some 1\<rparr>]"
  by (simp add: evals)

lemma w_pending_eq:
  "w_pending = \<lparr>loadedProjectionFunctions = Map.empty, createProjectionFunctions = None,
      adapters = [init_adapter host ''proj.js'' ''simple'' VUndefined\<lparr>a_readyPromise := Some 1\<rparr>],
      promises = [Pending, Pending], heap = [],
      loads = [\<lparr>l_adapter = 0, l_url = ''https://host/proj.js'', l_name = ''simple'',
                l_deferred = 0, l_promise = 1, l_status = Fetching\<rparr>],
      handed = [], trace = [FetchJsonp ''https://host/proj.js'']\<rparr>"
  by (simp add: evals)

lemma w_ready_eq:
  "w_ready = \<lparr>loadedProjectionFunctions = [''simple'' \<mapsto> SFactory simpleProjection],
      createProjectionFunctions = Some (SFactory simpleProjection),
      adapters = [init_adapter host ''proj.js'' ''simple'' VUndefined
         \<lparr>a_project := PFun simple_project, a_unproject := PFun simple_unproject,
          a_ready := True, a_readyPromise := Some 1\<rparr>],
      promises = [Resolved RUndefined, ThenReturn 0 0], heap = [],
      loads = [\<lparr>l_adapter = 0, l_url = ''https://host/proj.js'', l_name = ''simple'',
                l_deferred = 0, l_promise = 1, l_status = Done\<rparr>],
      handed = [Callback 0 0 RUndefined],
      trace = [CallbackInvoked 0, FactoryCall ''simple'', CachePut ''simple'',
               FetchJsonp ''https://host/proj.js'']\<rparr>"
  unfolding w_ready_def run_def w_pending_eq
  by (simp add: fetch_settles_def run_load_def set_status_def run_script_def settle_def
      call_factory_def simpleProjection_def invoke_callback_def resolve_def init_adapter_def)

subsection \<open>The guards of project and unproject\<close>

text \<open>
  Claim C1. On an adapter whose \<^verbatim>\<open>_ready\<close> flag is false, \<open>project\<close> and
  \<open>unproject\<close> throw the DeveloperError ``CustomProjection is not loaded'', whatever the
  arguments, and the state after the call is the state before it: flag, stored pair and
  every other field.
\<close>

theorem not_ready_rejects_calls:
  "this < length (adapters w) \<and> \<not> a_ready (adapters w ! this) \<longrightarrow>
     project w this cartographic result = (Inl not_loaded, w) \<and>
     unproject w this cartesian result' = (Inl not_loaded, w) \<and>
     (\<exists>msg. not_loaded = DeveloperError msg)"
  by (simp add: project_def unproject_def not_loaded_def)

theorem not_ready_rejects_calls_witness:
  "0 < length (adapters w_pending) \<and> \<not> a_ready (adapters w_pending ! 0) \<and>
   project w_pending 0 (VRef 0) VUndefined = (Inl not_loaded, w_pending) \<and>
   unproject w_pending 0 (VRef 0) VUndefined = (Inl not_loaded, w_pending)"
  using not_ready_rejects_calls [of 0 w_pending "VRef 0" VUndefined "VRef 0" VUndefined]
  by (simp add: w_pending_adapters init_adapter_def)

text \<open>
  Claim C10. On a ready adapter, \<open>project\<close> and \<open>unproject\<close> with an undefined
  input throw a DeveloperError and leave the state as it was, the trace included: the
  stored function has not been called, whatever it is.
\<close>

theorem undefined_input_guard:
  "this < length (adapters w) \<and> a_ready (adapters w ! this) \<longrightarrow>
     (\<exists>msg. project w this VUndefined result = (Inl (DeveloperError msg), w)) \<and>
     (\<exists>msg. unproject w this VUndefined result = (Inl (DeveloperError msg), w))"
  by (simp add: project_def unproject_def Check_defined_def defined_def)

theorem undefined_input_guard_witness:
  "0 < length (adapters w_ready) \<and> a_ready (adapters w_ready ! 0) \<and>
   (\<exists>msg. project w_ready 0 VUndefined (VRef 0) = (Inl (DeveloperError msg), w_ready)) \<and>
   (\<exists>msg. unproject w_ready 0 VUndefined (VRef 0) = (Inl (DeveloperError msg), w_ready))"
  using undefined_input_guard [of 0 w_ready "VRef 0"]
  by (simp add: w_ready_eq)

text \<open>
  Claim C6. On a ready adapter holding the functions \<open>f\<close> and \<open>g\<close>, with a defined
  input, and where the function called returns normally: a defined \<open>result\<close> is what is
  passed to the function and what is returned, the object store being what the function
  made of it; without a result, the reference returned is the next one of the object
  store, no object of the state before, and the function is called on the store extended
  with a new \<open>Cartesian3\<close> for \<open>project\<close>, a new \<open>Cartographic\<close> for \<open>unproject\<close>.
\<close>

theorem result_object_contract:
  "this < length (adapters w) \<and> a_ready (adapters w ! this) \<and> defined x \<and>
   a_project (adapters w ! this) = PFun f \<and> a_unproject (adapters w ! this) = PFun g \<longrightarrow>
   (defined r \<and> fst (f x r (heap w)) = None \<longrightarrow>
      project w this x r =
        (Inr r, w\<lparr>heap := snd (f x r (heap w)), trace := ProjectCall x r # trace w\<rparr>)) \<and>
   (\<not> defined r \<and> fst (f x (VRef (length (heap w))) (heap w @ [Cartesian3 0 0 0])) = None \<longrightarrow>
      project w this x r =
        (Inr (VRef (length (heap w))),
         w\<lparr>heap := snd (f x (VRef (length (heap w))) (heap w @ [Cartesian3 0 0 0])),
           trace := ProjectCall x (VRef (length (heap w))) # trace w\<rparr>)) \<and>
   (defined r \<and> fst (g x r (heap w)) = None \<longrightarrow>
      unproject w this x r =
        (Inr r, w\<lparr>heap := snd (g x r (heap w)), trace := UnprojectCall x r # trace w\<rparr>)) \<and>
   (\<not> defined r \<and> fst (g x (VRef (length (heap w))) (heap w @ [Cartographic 0 0 0])) = None \<longrightarrow>
      unproject w this x r =
        (Inr (VRef (length (heap w))),
         w\<lparr>heap := snd (g x (VRef (length (heap w))) (heap w @ [Cartographic 0 0 0])),
           trace := UnprojectCall x (VRef (length (heap w))) # trace w\<rparr>))"
  by (auto simp: project_def unproject_def Check_defined_def result_or_new_def delegate_def
      split: prod.splits option.splits)

theorem result_object_contract_witness:
  "fst (project w_coords 0 (VRef 0) (VRef 1)) = Inr (VRef 1) \<and>
   heap (snd (project w_coords 0 (VRef 0) (VRef 1))) = [Cartographic 0 0 10, Cartesian3 0 0 10] \<and>
   fst (project w_coords 0 (VRef 0) VUndefined) = Inr (VRef 2) \<and>
   heap (snd (project w_coords 0 (VRef 0) VUndefined)) =
     [Cartographic 0 0 10, Cartesian3 1 2 3, Cartesian3 0 0 10] \<and>
   fst (unproject w_coords 0 (VRef 1) (VRef 0)) = Inr (VRef 0) \<and>
   heap (snd (unproject w_coords 0 (VRef 1) (VRef 0))) =
     [Cartographic (1 / 6378137) (2 / 6378137) 3, Cartesian3 1 2 3] \<and>
   fst (unproject w_coords 0 (VRef 1) VNull) = Inr (VRef 2) \<and>
   heap (snd (unproject w_coords 0 (VRef 1) VNull)) =
     [Cartographic 0 0 10, Cartesian3 1 2 3, Cartographic (1 / 6378137) (2 / 6378137) 3]"
  using result_object_contract [of 0 w_coords "VRef 0" simple_project simple_unproject "VRef 1"]
    result_object_contract [of 0 w_coords "VRef 0" simple_project simple_unproject VUndefined]
    result_object_contract [of 0 w_coords "VRef 1" simple_project simple_unproject "VRef 0"]
    result_object_contract [of 0 w_coords "VRef 1" simple_project simple_unproject VNull]
  by (simp add: w_coords_def w_ready_eq init_adapter_def defined_def simple_project_def
      simple_unproject_def)

subsection \<open>What the operations keep of an adapter\<close>

lemma extends_refl: "extends w w"
  by (simp add: extends_def keeps_def)

lemma extends_trans: "extends w1 w2 \<Longrightarrow> extends w2 w3 \<Longrightarrow> extends w1 w3"
  unfolding extends_def keeps_def
  by (metis (no_types, lifting) order_less_le_trans order_trans)

lemma extends_same_adapters: "adapters w' = adapters w \<Longrightarrow> extends w w'"
  by (simp add: extends_def keeps_def)

lemma keeps_update:
  "i < length xs \<Longrightarrow>
     keeps (xs ! i) (xs[j := (xs ! j)\<lparr>a_project := pr, a_unproject := un, a_ready := True\<rparr>] ! i)"
  by (cases "i = j") (simp_all add: keeps_def)

lemma adapters_resolve: "adapters (resolve d v w) = adapters w"
  by (simp add: resolve_def)

lemma extends_invoke_callback: "extends w (invoke_callback cb pr un w)"
  by (simp add: extends_def invoke_callback_def adapters_resolve keeps_update)

lemma extends_invoke_all: "extends w (invoke_all cb cs w)"
proof (induction cs arbitrary: w)
  case Nil
  show ?case by (simp add: extends_refl)
next
  case (Cons c cs)
  obtain pr un where c: "c = (pr, un)" by (cases c)
  show ?case
    using extends_trans [OF extends_invoke_callback Cons.IH] by (simp add: c)
qed

lemma extends_call_factory: "call_factory f n cb w = (r, w') \<Longrightarrow> extends w w'"
proof (cases f)
  case (SValue v)
  assume "call_factory f n cb w = (r, w')"
  with SValue show ?thesis by (simp add: call_factory_def extends_refl)
next
  case (SFactory fa)
  assume h: "call_factory f n cb w = (r, w')"
  obtain cs ex where fa: "fa = Factory cs ex" by (cases fa)
  have "extends w (w\<lparr>handed := cb # handed w, trace := FactoryCall n # trace w\<rparr>)"
    by (simp add: extends_same_adapters)
  from extends_trans [OF this extends_invoke_all] h SFactory fa
  show ?thesis by (auto simp: call_factory_def)
qed

lemma extends_register_load: "register_load a u n d st w = (r, w') \<Longrightarrow> extends w w'"
  by (auto simp: register_load_def new_promise_def intro: extends_same_adapters)

lemma extends_run_script: "extends w (run_script eff w)"
  by (simp add: run_script_def extends_same_adapters split: option.splits)

lemma extends_settle: "extends w (settle p c w)"
  by (simp add: settle_def extends_same_adapters)

lemma extends_set_status: "extends w (set_status i st w)"
  by (simp add: set_status_def extends_same_adapters)

lemma extends_build: "buildCustomProjection ev w a u n = (r, w') \<Longrightarrow> extends w w'"
proof -
  assume h: "buildCustomProjection ev w a u n = (r, w')"
  let ?w1 = "w\<lparr>promises := promises w @ [Pending]\<rparr>"
  have e1: "extends w ?w1" by (simp add: extends_same_adapters)
  show ?thesis
  proof (cases "cache_lookup ?w1 n")
    case (Some f)
    obtain r2 w2 where cf: "call_factory f n (Callback a (length (promises w)) (RAdapter a)) ?w1 = (r2, w2)"
      by (cases "call_factory f n (Callback a (length (promises w)) (RAdapter a)) ?w1")
    from h Some cf have "w' = w2"
      by (auto simp: buildCustomProjection_def new_promise_def split: option.splits)
    with extends_trans [OF e1 extends_call_factory [OF cf]] show ?thesis by simp
  next
    case None
    show ?thesis
    proof (cases "inWorker ev")
      case True
      show ?thesis
      proof (cases "importScripts ev u")
        case (LoadFails e)
        with h None True have "adapters w' = adapters w"
          by (auto simp: buildCustomProjection_def new_promise_def)
        then show ?thesis by (rule extends_same_adapters)
      next
        case (Executes eff)
        with h None True have "register_load a u n (length (promises w)) Fetched
            (run_script eff (?w1\<lparr>trace := ImportScripts u # trace ?w1\<rparr>)) = (r, w')"
          by (simp add: buildCustomProjection_def new_promise_def)
        from extends_register_load [OF this]
        have "extends (run_script eff (?w1\<lparr>trace := ImportScripts u # trace ?w1\<rparr>)) w'" .
        moreover have "extends w (run_script eff (?w1\<lparr>trace := ImportScripts u # trace ?w1\<rparr>))"
          by (rule extends_same_adapters) (simp add: run_script_def split: option.splits)
        ultimately show ?thesis by (rule extends_trans [rotated])
      qed
    next
      case False
      with h None have "register_load a u n (length (promises w)) Fetching
            (?w1\<lparr>trace := FetchJsonp u # trace ?w1\<rparr>) = (r, w')"
        by (simp add: buildCustomProjection_def new_promise_def)
      from extends_register_load [OF this]
      have "extends (?w1\<lparr>trace := FetchJsonp u # trace ?w1\<rparr>) w'" .
      moreover have "extends w (?w1\<lparr>trace := FetchJsonp u # trace ?w1\<rparr>)"
        by (rule extends_same_adapters) simp
      ultimately show ?thesis by (rule extends_trans [rotated])
    qed
  qed
qed

lemma extends_append: "extends w (w\<lparr>adapters := adapters w @ [a]\<rparr>)"
  by (simp add: extends_def keeps_def nth_append)

lemma extends_set_readyPromise:
  assumes "extends w w2" and "length (adapters w) \<le> this"
  shows "extends w (set_readyPromise this p w2)"
proof -
  have "adapters (set_readyPromise this p w2) ! i = adapters w2 ! i" if "i < length (adapters w)" for i
    using that assms(2) by (simp add: set_readyPromise_def)
  moreover have "length (adapters (set_readyPromise this p w2)) = length (adapters w2)"
    by (simp add: set_readyPromise_def)
  ultimately show ?thesis using assms(1) by (simp add: extends_def)
qed

lemma extends_CustomProjection: "CustomProjection ev w uv nv e = (r, w') \<Longrightarrow> extends w w'"
proof -
  assume h: "CustomProjection ev w uv nv e = (r, w')"
  show ?thesis
  proof (cases "\<exists>u n. uv = VStr u \<and> nv = VStr n")
    case False
    with h have "w' = w"
      by (cases uv; cases nv) (auto simp: CustomProjection_def Check_typeOf_string_def)
    then show ?thesis by (simp add: extends_refl)
  next
    case True
    then obtain u n where uv: "uv = VStr u" and nv: "nv = VStr n" by blast
    let ?w0 = "w\<lparr>adapters := adapters w @ [init_adapter ev u n e]\<rparr>"
    obtain r2 w2 where b: "buildCustomProjection ev ?w0 (length (adapters w)) (getAbsoluteUri ev u) n = (r2, w2)"
      by (cases "buildCustomProjection ev ?w0 (length (adapters w)) (getAbsoluteUri ev u) n")
    have e02: "extends w w2"
      using extends_trans [OF extends_append extends_build [OF b]] .
    show ?thesis
    proof (cases r2)
      case (Inl x)
      with h uv nv b have "w' = w2"
        by (simp add: CustomProjection_def Check_typeOf_string_def)
      with e02 show ?thesis by simp
    next
      case (Inr p)
      with h uv nv b have "w' = set_readyPromise (length (adapters w)) p w2"
        by (simp add: CustomProjection_def Check_typeOf_string_def)
      with extends_set_readyPromise [OF e02, of "length (adapters w)" p] show ?thesis by simp
    qed
  qed
qed

lemma extends_fetch_settles: "extends w (fetch_settles i outcome w)"
proof (cases outcome)
  case (LoadFails e)
  then show ?thesis
    using extends_trans [OF extends_set_status extends_settle]
    by (simp add: fetch_settles_def extends_refl)
next
  case (Executes eff)
  then show ?thesis
    using extends_trans [OF extends_set_status extends_run_script]
    by (simp add: fetch_settles_def extends_refl)
qed

lemma extends_run_load: "extends w (run_load i w)"
proof (cases "i < length (loads w) \<and> l_status (loads w ! i) = Fetched")
  case False
  then show ?thesis by (auto simp: run_load_def extends_refl)
next
  case True
  show ?thesis
  proof (cases "createProjectionFunctions w")
    case None
    with True show ?thesis
      using extends_trans [OF extends_set_status extends_settle]
      by (simp add: run_load_def)
  next
    case (Some f)
    let ?l = "loads w ! i"
    let ?w1 = "(set_status i Done w)\<lparr>loadedProjectionFunctions :=
                 (loadedProjectionFunctions w)(l_name ?l \<mapsto> f),
               trace := CachePut (l_name ?l) # trace w\<rparr>"
    obtain r2 w2 where cf: "call_factory f (l_name ?l)
        (Callback (l_adapter ?l) (l_deferred ?l) RUndefined) ?w1 = (r2, w2)"
      by (cases "call_factory f (l_name ?l) (Callback (l_adapter ?l) (l_deferred ?l) RUndefined) ?w1")
    have "extends w ?w1"
      by (rule extends_same_adapters) (simp add: set_status_def)
    from extends_trans [OF this extends_call_factory [OF cf]] have e2: "extends w w2" .
    have "run_load i w = settle (l_promise ?l) (Rejected (the r2)) w2 \<or>
          run_load i w = settle (l_promise ?l) (ThenReturn (l_deferred ?l) (l_adapter ?l)) w2"
      using True Some cf by (cases r2) (simp_all add: run_load_def)
    then show ?thesis
      using extends_trans [OF e2 extends_settle] by auto
  qed
qed

lemma extends_callback_fires: "extends w (callback_fires cb pr un w)"
  by (simp add: callback_fires_def extends_refl extends_invoke_callback)

lemma adapters_delegate: "adapters (snd (delegate f act x r w)) = adapters w"
  by (auto simp: delegate_def split: cbarg.splits prod.splits option.splits)

lemma adapters_project: "adapters (snd (project w a c r)) = adapters w"
  by (auto simp: project_def result_or_new_def adapters_delegate split: option.splits)

lemma adapters_unproject: "adapters (snd (unproject w a c r)) = adapters w"
  by (auto simp: unproject_def result_or_new_def adapters_delegate split: option.splits)

lemma extends_step: "extends w (step ev w e)"
proof (cases e)
  case (EConstruct u n el)
  then show ?thesis
    using extends_CustomProjection [of ev w u n el] by (cases "CustomProjection ev w u n el") simp
qed (simp_all add: extends_fetch_settles extends_run_load extends_callback_fires
      extends_run_script extends_refl extends_same_adapters adapters_project adapters_unproject)

lemma extends_run: "extends w (run ev w es)"
proof (induction es arbitrary: w)
  case Nil
  show ?case by (simp add: run_def extends_refl)
next
  case (Cons e es)
  have "run ev w (e # es) = run ev (step ev w e) es" by (simp add: run_def)
  with extends_trans [OF extends_step Cons.IH] show ?case by simp
qed

lemma CustomProjection_strings:
  "CustomProjection ev w (VStr u) (VStr n) e =
     (case buildCustomProjection ev (w\<lparr>adapters := adapters w @ [init_adapter ev u n e]\<rparr>)
             (length (adapters w)) (getAbsoluteUri ev u) n of
        (Inl x, w2) \<Rightarrow> (Inl x, w2)
      | (Inr p, w2) \<Rightarrow> (Inr (length (adapters w)), set_readyPromise (length (adapters w)) p w2))"
  by (simp add: CustomProjection_def Check_typeOf_string_def)

lemma construct_new_adapter:
  assumes "CustomProjection ev w (VStr u) (VStr n) e = (Inr this, w')"
  shows "this = length (adapters w)" and "this < length (adapters w')"
    and "keeps (init_adapter ev u n e) (adapters w' ! this)"
    and "\<exists>p. a_readyPromise (adapters w' ! this) = Some p"
proof -
  let ?w0 = "w\<lparr>adapters := adapters w @ [init_adapter ev u n e]\<rparr>"
  obtain r2 w2 where b: "buildCustomProjection ev ?w0 (length (adapters w)) (getAbsoluteUri ev u) n = (r2, w2)"
    by (cases "buildCustomProjection ev ?w0 (length (adapters w)) (getAbsoluteUri ev u) n")
  have "CustomProjection ev w (VStr u) (VStr n) e =
      (case r2 of Inl x \<Rightarrow> (Inl x, w2)
       | Inr p \<Rightarrow> (Inr (length (adapters w)), set_readyPromise (length (adapters w)) p w2))"
    by (simp add: CustomProjection_strings b)
  with assms have "\<exists>p. r2 = Inr p \<and> w' = set_readyPromise (length (adapters w)) p w2 \<and>
      this = length (adapters w)"
    by (cases r2) auto
  then obtain p where r2: "r2 = Inr p"
    and w': "w' = set_readyPromise (length (adapters w)) p w2"
    and th: "this = length (adapters w)"
    by blast
  show "this = length (adapters w)" by (rule th)
  from extends_build [OF b]
  have "length (adapters ?w0) \<le> length (adapters w2)"
    and "\<forall>i<length (adapters ?w0). keeps (adapters ?w0 ! i) (adapters w2 ! i)"
    by (simp_all add: extends_def)
  from this(1) this(2) [rule_format, of this]
  have lt: "this < length (adapters w2)"
    and k: "keeps (init_adapter ev u n e) (adapters w2 ! this)"
    using th by simp_all
  from lt show "this < length (adapters w')" by (simp add: w' set_readyPromise_def)
  from lt have x: "adapters w' ! this = (adapters w2 ! this)\<lparr>a_readyPromise := Some p\<rparr>"
    by (simp add: w' th set_readyPromise_def)
  from k show "keeps (init_adapter ev u n e) (adapters w' ! this)"
    by (simp add: x keeps_def init_adapter_def)
  show "\<exists>p. a_readyPromise (adapters w' ! this) = Some p" by (simp add: x)
qed

lemma keeps_run:
  "this < length (adapters w) \<Longrightarrow>
     this < length (adapters (run ev w es)) \<and> keeps (adapters w ! this) (adapters (run ev w es) ! this)"
  using extends_run [of w ev es] by (auto simp: extends_def)

text \<open>
  Claim C9. \<open>isEquatorialCylindrical\<close> is false on every adapter in every state, and
  \<open>url\<close> is \<^verbatim>\<open>getAbsoluteUri\<close> of the URL given to the constructor, as resolved in
  the environment \<open>ev\<close> of the construction, from the moment the constructor returns and
  through every sequence of operations and events, in whatever environment \<open>ev'\<close> they
  happen.
\<close>

theorem accessors_fixed:
  "CustomProjection ev w (VStr u) (VStr n) e = (Inr this, w') \<longrightarrow>
     url w' this = getAbsoluteUri ev u \<and>
     url (run ev' w' es) this = getAbsoluteUri ev u \<and>
     isEquatorialCylindrical (run ev' w' es) this = False"
proof
  assume h: "CustomProjection ev w (VStr u) (VStr n) e = (Inr this, w')"
  from construct_new_adapter [OF h]
  have lt: "this < length (adapters w')" and k: "keeps (init_adapter ev u n e) (adapters w' ! this)"
    by simp_all
  from k have u0: "a_url (adapters w' ! this) = getAbsoluteUri ev u"
    by (simp add: keeps_def init_adapter_def)
  from keeps_run [OF lt, of ev' es] have "a_url (adapters (run ev' w' es) ! this) = a_url (adapters w' ! this)"
    by (simp add: keeps_def)
  with u0 show "url w' this = getAbsoluteUri ev u \<and>
     url (run ev' w' es) this = getAbsoluteUri ev u \<and>
     isEquatorialCylindrical (run ev' w' es) this = False"
    by (simp add: url_def isEquatorialCylindrical_def)
qed

lemma construct_pending:
  "CustomProjection host initial (VStr ''proj.js'') (VStr ''simple'') VUndefined = (Inr 0, w_pending)"
  unfolding w_pending_eq by (simp add: evals)

theorem accessors_fixed_witness:
  "CustomProjection host initial (VStr ''proj.js'') (VStr ''simple'') VUndefined = (Inr 0, w_pending) \<and>
   url w_pending 0 = ''https://host/proj.js'' \<and>
   url (run (host\<lparr>getAbsoluteUri := (\<lambda>u. ''https://elsewhere/'' @ u)\<rparr>) w_pending
          [EFetchSettles 0 (Executes (Some (SFactory simpleProjection))), ERunLoad 0]) 0
     = ''https://host/proj.js'' \<and>
   ''https://host/proj.js'' \<noteq> ''proj.js'' \<and>
   isEquatorialCylindrical (run (host\<lparr>getAbsoluteUri := (\<lambda>u. ''https://elsewhere/'' @ u)\<rparr>) w_pending
          [EFetchSettles 0 (Executes (Some (SFactory simpleProjection))), ERunLoad 0]) 0 = False"
  using accessors_fixed [of host initial "''proj.js''" "''simple''" VUndefined 0 w_pending
      "host\<lparr>getAbsoluteUri := (\<lambda>u. ''https://elsewhere/'' @ u)\<rparr>"
      "[EFetchSettles 0 (Executes (Some (SFactory simpleProjection))), ERunLoad 0]"]
    construct_pending
  by (simp add: host_def)

text \<open>
  Claim C8. The constructor creates the adapter with \<^verbatim>\<open>_ready = false\<close>, and an
  adapter that is ready stays ready through every sequence of operations and events.
\<close>

theorem ready_monotonic:
  "a_ready (init_adapter ev u n e) = False \<and>
   (this < length (adapters w) \<and> a_ready (adapters w ! this) \<longrightarrow>
      this < length (adapters (run ev w es)) \<and> a_ready (adapters (run ev w es) ! this))"
  using keeps_run [of this w ev es] by (auto simp: keeps_def init_adapter_def)

theorem ready_monotonic_witness:
  "0 < length (adapters w_ready) \<and> a_ready (adapters w_ready ! 0) \<and>
   a_ready (adapters (run host w_ready
      [EProject 0 VUndefined VUndefined, EConstruct (VStr ''other.js'') (VStr ''simple'') VUndefined,
       ECallback (Callback 0 0 RUndefined) (NotFun VUndefined) (NotFun VUndefined),
       EFetchSettles 0 (LoadFails (ExternalError ''late'')), ERunLoad 0]) ! 0)"
  using ready_monotonic [of host "''proj.js''" "''simple''" VUndefined 0 w_ready
      "[EProject 0 VUndefined VUndefined, EConstruct (VStr ''other.js'') (VStr ''simple'') VUndefined,
       ECallback (Callback 0 0 RUndefined) (NotFun VUndefined) (NotFun VUndefined),
       EFetchSettles 0 (LoadFails (ExternalError ''late'')), ERunLoad 0]"]
  by (simp add: w_ready_eq)

text \<open>
  Claim C4, as amended. The constructor checks the type of \<open>url\<close> and of
  \<open>projectionName\<close>: when either is not a string (missing, for one), it throws a
  DeveloperError and leaves the state as it was. Any two strings, the empty string
  included, pass: on a page where the name is not cached the constructor returns the new
  adapter.
\<close>

theorem constructor_validation:
  "((\<forall>s. uv \<noteq> VStr s) \<or> (\<forall>s. nv \<noteq> VStr s) \<longrightarrow>
      (\<exists>msg. CustomProjection ev w uv nv e = (Inl (DeveloperError msg), w))) \<and>
   (\<not> inWorker ev \<and> cache_lookup w n = None \<longrightarrow>
      fst (CustomProjection ev w (VStr u) (VStr n) e) = Inr (length (adapters w)))"
proof -
  have a: "\<exists>msg. CustomProjection ev w uv nv e = (Inl (DeveloperError msg), w)"
    if "(\<forall>s. uv \<noteq> VStr s) \<or> (\<forall>s. nv \<noteq> VStr s)"
    using that by (cases uv; cases nv) (simp_all add: CustomProjection_def Check_typeOf_string_def)
  have b: "fst (CustomProjection ev w (VStr u) (VStr n) e) = Inr (length (adapters w))"
    if "\<not> inWorker ev \<and> cache_lookup w n = None"
    using that
    by (simp add: CustomProjection_def Check_typeOf_string_def buildCustomProjection_def
        new_promise_def cache_lookup_def register_load_def)
  from a b show ?thesis by blast
qed

theorem constructor_validation_witness:
  "(\<exists>msg. CustomProjection host initial VUndefined (VStr ''simple'') VUndefined
            = (Inl (DeveloperError msg), initial)) \<and>
   (\<exists>msg. CustomProjection host initial (VStr ''proj.js'') VUndefined VUndefined
            = (Inl (DeveloperError msg), initial)) \<and>
   fst (CustomProjection host initial (VStr '''') (VStr '''') VUndefined) = Inr 0"
  using constructor_validation [of VUndefined "VStr ''simple''" host initial VUndefined "''''" "''''"]
    constructor_validation [of "VStr ''proj.js''" VUndefined host initial VUndefined "''''" "''''"]
  by (simp add: host_def initial_def cache_lookup_def)

text \<open>
  Claim C4 as stated fails: with the empty string as URL, or as projection name, the
  constructor returns an adapter and throws nothing.
\<close>

theorem empty_strings_accepted:
  "\<not> (\<exists>err. fst (CustomProjection host initial (VStr '''') (VStr ''simple'') VUndefined) = Inl err) \<and>
   \<not> (\<exists>err. fst (CustomProjection host initial (VStr ''proj.js'') (VStr '''') VUndefined) = Inl err)"
  by (simp add: evals)

subsection \<open>Cache hits\<close>

lemma trace_resolve: "trace (resolve d v w) = trace w"
  by (simp add: resolve_def)

lemma loads_resolve: "loads (resolve d v w) = loads w"
  by (simp add: resolve_def)

lemma trace_invoke_all:
  "trace (invoke_all cb cs w) = replicate (length cs) (CallbackInvoked (cb_adapter cb)) @ trace w"
proof (induction cs arbitrary: w)
  case Nil
  show ?case by simp
next
  case (Cons c cs)
  obtain pr un where c: "c = (pr, un)" by (cases c)
  have "trace (invoke_callback cb pr un w) = CallbackInvoked (cb_adapter cb) # trace w"
    by (simp add: invoke_callback_def trace_resolve)
  with Cons.IH [of "invoke_callback cb pr un w"] show ?case
    by (simp add: c replicate_app_Cons_same)
qed

lemma loads_invoke_all: "loads (invoke_all cb cs w) = loads w"
proof (induction cs arbitrary: w)
  case Nil
  show ?case by simp
next
  case (Cons c cs)
  obtain pr un where c: "c = (pr, un)" by (cases c)
  from Cons.IH [of "invoke_callback cb pr un w"] show ?case
    by (simp add: c invoke_callback_def loads_resolve)
qed

lemma io_free_replicate: "io_free (replicate k (CallbackInvoked a))"
  by (induction k) (simp_all add: io_free_def)

lemma io_free_append: "io_free (xs @ ys) = (io_free xs \<and> io_free ys)"
  by (simp add: io_free_def)

lemma build_cache_hit:
  assumes "loadedProjectionFunctions w n = Some f" and "defined_slot f"
  shows "\<exists>ts. trace (snd (buildCustomProjection ev w a u n)) = ts @ trace w \<and> io_free ts \<and>
           (\<forall>fa. f = SFactory fa \<longrightarrow> FactoryCall n \<in> set ts) \<and>
           loads (snd (buildCustomProjection ev w a u n)) = loads w"
proof (cases f)
  case (SValue v)
  with assms show ?thesis
    by (simp add: buildCustomProjection_def new_promise_def cache_lookup_def call_factory_def
        io_free_def)
next
  case (SFactory fa)
  obtain cs ex where fa: "fa = Factory cs ex" by (cases fa)
  let ?cb = "Callback a (length (promises w)) (RAdapter a)"
  let ?w1 = "w\<lparr>promises := promises w @ [Pending]\<rparr>"
  let ?w2 = "invoke_all ?cb cs (?w1\<lparr>handed := ?cb # handed ?w1, trace := FactoryCall n # trace ?w1\<rparr>)"
  have "snd (buildCustomProjection ev w a u n) = ?w2"
    using assms SFactory fa
    by (cases ex) (simp_all add: buildCustomProjection_def new_promise_def cache_lookup_def
        call_factory_def)
  moreover have "trace ?w2 = (replicate (length cs) (CallbackInvoked a) @ [FactoryCall n]) @ trace w"
    by (simp add: trace_invoke_all)
  moreover have "loads ?w2 = loads w"
    by (simp add: loads_invoke_all)
  moreover have "io_free (replicate (length cs) (CallbackInvoked a) @ [FactoryCall n])"
    by (simp add: io_free_append io_free_replicate) (simp add: io_free_def)
  ultimately show ?thesis
    by (metis in_set_conv_decomp)
qed

text \<open>
  Claim C2. When the cache holds a defined value under the projection name, the
  constructor adds to the trace no \<open>FetchJsonp\<close> and no \<open>ImportScripts\<close>, registers no
  continuation on a fetch, and, the value being a factory, calls that factory.
\<close>

theorem cache_hit_no_fetch:
  "loadedProjectionFunctions w n = Some f \<and> defined_slot f \<longrightarrow>
     (\<exists>ts. trace (snd (CustomProjection ev w (VStr u) (VStr n) e)) = ts @ trace w \<and> io_free ts \<and>
        (\<forall>fa. f = SFactory fa \<longrightarrow> FactoryCall n \<in> set ts)) \<and>
     loads (snd (CustomProjection ev w (VStr u) (VStr n) e)) = loads w"
proof
  assume h: "loadedProjectionFunctions w n = Some f \<and> defined_slot f"
  let ?w0 = "w\<lparr>adapters := adapters w @ [init_adapter ev u n e]\<rparr>"
  let ?b = "buildCustomProjection ev ?w0 (length (adapters w)) (getAbsoluteUri ev u) n"
  from h have "loadedProjectionFunctions ?w0 n = Some f" and "defined_slot f" by simp_all
  from build_cache_hit [OF this, of ev "length (adapters w)" "getAbsoluteUri ev u"]
  obtain ts where ts: "trace (snd ?b) = ts @ trace w" "io_free ts"
      "\<forall>fa. f = SFactory fa \<longrightarrow> FactoryCall n \<in> set ts" "loads (snd ?b) = loads w"
    by auto
  have "trace (snd (CustomProjection ev w (VStr u) (VStr n) e)) = trace (snd ?b) \<and>
        loads (snd (CustomProjection ev w (VStr u) (VStr n) e)) = loads (snd ?b)"
    by (cases ?b) (auto simp: CustomProjection_strings set_readyPromise_def split: sum.splits)
  with ts show "(\<exists>ts. trace (snd (CustomProjection ev w (VStr u) (VStr n) e)) = ts @ trace w \<and> io_free ts \<and>
        (\<forall>fa. f = SFactory fa \<longrightarrow> FactoryCall n \<in> set ts)) \<and>
     loads (snd (CustomProjection ev w (VStr u) (VStr n) e)) = loads w"
    by auto
qed

theorem cache_hit_no_fetch_witness:
  "loadedProjectionFunctions w_ready ''simple'' = Some (SFactory simpleProjection) \<and>
   defined_slot (SFactory simpleProjection) \<and>
   trace (snd (CustomProjection host w_ready (VStr ''other.js'') (VStr ''simple'') VUndefined))
     = [CallbackInvoked 1, FactoryCall ''simple''] @ trace w_ready \<and>
   io_free [CallbackInvoked 1, FactoryCall ''simple''] \<and>
   loads (snd (CustomProjection host w_ready (VStr ''other.js'') (VStr ''simple'') VUndefined))
     = loads w_ready"
  using cache_hit_no_fetch [of w_ready "''simple''" "SFactory simpleProjection" host "''other.js''" VUndefined]
  by (simp add: w_ready_eq evals)

subsection \<open>A module without entry point\<close>





subsection \<open>Readiness comes from the callback alone\<close>

lemma by_callback_refl: "by_callback w w"
  by (simp add: by_callback_def)

lemma by_callback_trans:
  assumes "by_callback w1 w2" and "by_callback w2 w3"
  shows "by_callback w1 w3"
proof -
  from assms(1) obtain ts1 where t1: "trace w2 = ts1 @ trace w1"
    and r1: "\<And>i. was_ready w2 i \<Longrightarrow> was_ready w1 i \<or> CallbackInvoked i \<in> set ts1"
    and p1: "\<And>d. was_resolved w2 d \<Longrightarrow> was_resolved w1 d \<or> (\<exists>i. CallbackInvoked i \<in> set ts1)"
    unfolding by_callback_def by blast
  from assms(2) obtain ts2 where t2: "trace w3 = ts2 @ trace w2"
    and r2: "\<And>i. was_ready w3 i \<Longrightarrow> was_ready w2 i \<or> CallbackInvoked i \<in> set ts2"
    and p2: "\<And>d. was_resolved w3 d \<Longrightarrow> was_resolved w2 d \<or> (\<exists>i. CallbackInvoked i \<in> set ts2)"
    unfolding by_callback_def by blast
  have "trace w3 = (ts2 @ ts1) @ trace w1" by (simp add: t1 t2)
  moreover have "was_ready w1 i \<or> CallbackInvoked i \<in> set (ts2 @ ts1)" if "was_ready w3 i" for i
    using r1 [of i] r2 [OF that] by auto
  moreover have "was_resolved w1 d \<or> (\<exists>i. CallbackInvoked i \<in> set (ts2 @ ts1))"
    if "was_resolved w3 d" for d
    using p1 [of d] p2 [OF that] by auto
  ultimately show ?thesis unfolding by_callback_def by blast
qed

lemma by_callback_quiet:
  assumes "trace w' = ts @ trace w"
    and "\<And>i. was_ready w' i \<Longrightarrow> was_ready w i"
    and "\<And>d. was_resolved w' d \<Longrightarrow> was_resolved w d"
  shows "by_callback w w'"
  unfolding by_callback_def using assms by blast

lemma by_callback_invoke_callback: "by_callback w (invoke_callback cb pr un w)"
proof -
  let ?w' = "invoke_callback cb pr un w"
  have t: "trace ?w' = [CallbackInvoked (cb_adapter cb)] @ trace w"
    by (simp add: invoke_callback_def trace_resolve)
  have "was_ready w i \<or> CallbackInvoked i \<in> set [CallbackInvoked (cb_adapter cb)]"
    if "was_ready ?w' i" for i
    using that by (cases "i = cb_adapter cb")
      (simp_all add: was_ready_def invoke_callback_def adapters_resolve)
  with t show ?thesis unfolding by_callback_def by (metis list.set_intros(1))
qed

lemma by_callback_invoke_all: "by_callback w (invoke_all cb cs w)"
proof (induction cs arbitrary: w)
  case Nil
  show ?case by (simp add: by_callback_refl)
next
  case (Cons c cs)
  obtain pr un where c: "c = (pr, un)" by (cases c)
  show ?case
    using by_callback_trans [OF by_callback_invoke_callback Cons.IH] by (simp add: c)
qed

lemma by_callback_same:
  "adapters w' = adapters w \<Longrightarrow> promises w' = promises w \<Longrightarrow> trace w' = ts @ trace w \<Longrightarrow>
     by_callback w w'"
  by (rule by_callback_quiet [of _ ts]) (simp_all add: was_ready_def was_resolved_def)

lemma was_resolved_settle:
  "c = Pending \<or> (\<exists>e. c = Rejected e) \<or> (\<exists>d a. c = ThenReturn d a) \<Longrightarrow>
     was_resolved (settle p c w) d \<Longrightarrow> was_resolved w d"
  by (cases "d = p") (auto simp: was_resolved_def settle_def)

lemma by_callback_settle:
  "c = Pending \<or> (\<exists>e. c = Rejected e) \<or> (\<exists>d a. c = ThenReturn d a) \<Longrightarrow> by_callback w (settle p c w)"
proof (rule by_callback_quiet [of _ "[]"])
  show "trace (settle p c w) = [] @ trace w" by (simp add: settle_def)
  show "was_ready (settle p c w) i \<Longrightarrow> was_ready w i" for i
    by (simp add: was_ready_def settle_def)
  show "c = Pending \<or> (\<exists>e. c = Rejected e) \<or> (\<exists>d a. c = ThenReturn d a) \<Longrightarrow>
      was_resolved (settle p c w) d \<Longrightarrow> was_resolved w d" for d
    by (rule was_resolved_settle)
qed

lemma by_callback_new_promise: "new_promise w = (p, w') \<Longrightarrow> by_callback w w'"
proof (rule by_callback_quiet [of _ "[]"])
  assume h: "new_promise w = (p, w')"
  then show "trace w' = [] @ trace w" by (auto simp: new_promise_def)
  from h show "was_ready w' i \<Longrightarrow> was_ready w i" for i
    by (auto simp: new_promise_def was_ready_def)
  from h show "was_resolved w' d \<Longrightarrow> was_resolved w d" for d
    by (cases "d < length (promises w)") (auto simp: new_promise_def was_resolved_def nth_append)
qed

lemma by_callback_set_status: "by_callback w (set_status i st w)"
  by (rule by_callback_same [of _ _ "[]"]) (simp_all add: set_status_def)

lemma by_callback_run_script: "by_callback w (run_script eff w)"
  by (rule by_callback_same [of _ _ "[]"]) (simp_all add: run_script_def split: option.splits)

lemma by_callback_call_factory: "call_factory f n cb w = (r, w') \<Longrightarrow> by_callback w w'"
proof (cases f)
  case (SValue v)
  assume "call_factory f n cb w = (r, w')"
  with SValue show ?thesis by (simp add: call_factory_def by_callback_refl)
next
  case (SFactory fa)
  assume h: "call_factory f n cb w = (r, w')"
  obtain cs ex where fa: "fa = Factory cs ex" by (cases fa)
  have "by_callback w (w\<lparr>handed := cb # handed w, trace := FactoryCall n # trace w\<rparr>)"
    by (rule by_callback_same [of _ _ "[FactoryCall n]"]) simp_all
  from by_callback_trans [OF this by_callback_invoke_all] h SFactory fa
  show ?thesis by (auto simp: call_factory_def)
qed

lemma by_callback_register_load: "register_load a u n d st w = (r, w') \<Longrightarrow> by_callback w w'"
proof -
  assume h: "register_load a u n d st w = (r, w')"
  obtain p w1 where np: "new_promise w = (p, w1)" by (cases "new_promise w")
  with h have "adapters w' = adapters w1" "promises w' = promises w1" "trace w' = [] @ trace w1"
    by (auto simp: register_load_def)
  from by_callback_trans [OF by_callback_new_promise [OF np] by_callback_same [OF this]]
  show ?thesis .
qed

lemma by_callback_trace: "by_callback w (w\<lparr>trace := x # trace w\<rparr>)"
  by (rule by_callback_same [of _ _ "[x]"]) simp_all

lemma by_callback_build: "buildCustomProjection ev w a u n = (r, w') \<Longrightarrow> by_callback w w'"
proof -
  assume h: "buildCustomProjection ev w a u n = (r, w')"
  obtain d w1 where np: "new_promise w = (d, w1)" by (cases "new_promise w")
  note b1 = by_callback_new_promise [OF np]
  show ?thesis
  proof (cases "cache_lookup w1 n")
    case (Some f)
    obtain r2 w2 where cf: "call_factory f n (Callback a d (RAdapter a)) w1 = (r2, w2)"
      by (cases "call_factory f n (Callback a d (RAdapter a)) w1")
    from h Some cf np have "w' = w2"
      by (auto simp: buildCustomProjection_def split: option.splits)
    with by_callback_trans [OF b1 by_callback_call_factory [OF cf]] show ?thesis by simp
  next
    case None
    show ?thesis
    proof (cases "inWorker ev")
      case True
      show ?thesis
      proof (cases "importScripts ev u")
        case (LoadFails e)
        with h None True np have "w' = w1\<lparr>trace := ImportScripts u # trace w1\<rparr>"
          by (auto simp: buildCustomProjection_def)
        with by_callback_trans [OF b1 by_callback_trace] show ?thesis by simp
      next
        case (Executes eff)
        with h None True np have "register_load a u n d Fetched
            (run_script eff (w1\<lparr>trace := ImportScripts u # trace w1\<rparr>)) = (r, w')"
          by (simp add: buildCustomProjection_def)
        from by_callback_trans [OF by_callback_trans [OF by_callback_trans [OF b1 by_callback_trace]
              by_callback_run_script] by_callback_register_load [OF this]]
        show ?thesis .
      qed
    next
      case False
      with h None np have "register_load a u n d Fetching
            (w1\<lparr>trace := FetchJsonp u # trace w1\<rparr>) = (r, w')"
        by (simp add: buildCustomProjection_def)
      from by_callback_trans [OF by_callback_trans [OF b1 by_callback_trace]
            by_callback_register_load [OF this]]
      show ?thesis .
    qed
  qed
qed

lemma by_callback_append: "\<not> a_ready a \<Longrightarrow> by_callback w (w\<lparr>adapters := adapters w @ [a]\<rparr>)"
proof (rule by_callback_quiet [of _ "[]"])
  assume n: "\<not> a_ready a"
  show "trace (w\<lparr>adapters := adapters w @ [a]\<rparr>) = [] @ trace w" by simp
  show "was_ready (w\<lparr>adapters := adapters w @ [a]\<rparr>) i \<Longrightarrow> was_ready w i" for i
    using n by (cases "i < length (adapters w)") (auto simp: was_ready_def nth_append)
  show "was_resolved (w\<lparr>adapters := adapters w @ [a]\<rparr>) d \<Longrightarrow> was_resolved w d" for d
    by (simp add: was_resolved_def)
qed

lemma by_callback_set_readyPromise: "by_callback w (set_readyPromise this p w)"
proof (rule by_callback_quiet [of _ "[]"])
  show "trace (set_readyPromise this p w) = [] @ trace w" by (simp add: set_readyPromise_def)
  show "was_ready (set_readyPromise this p w) i \<Longrightarrow> was_ready w i" for i
    by (cases "i = this") (auto simp: was_ready_def set_readyPromise_def)
  show "was_resolved (set_readyPromise this p w) d \<Longrightarrow> was_resolved w d" for d
    by (simp add: was_resolved_def set_readyPromise_def)
qed

lemma by_callback_CustomProjection: "CustomProjection ev w uv nv e = (r, w') \<Longrightarrow> by_callback w w'"
proof -
  assume h: "CustomProjection ev w uv nv e = (r, w')"
  show ?thesis
  proof (cases "\<exists>u n. uv = VStr u \<and> nv = VStr n")
    case False
    with h have "w' = w"
      by (cases uv; cases nv) (auto simp: CustomProjection_def Check_typeOf_string_def)
    then show ?thesis by (simp add: by_callback_refl)
  next
    case True
    then obtain u n where uv: "uv = VStr u" and nv: "nv = VStr n" by blast
    let ?w0 = "w\<lparr>adapters := adapters w @ [init_adapter ev u n e]\<rparr>"
    obtain r2 w2 where b: "buildCustomProjection ev ?w0 (length (adapters w)) (getAbsoluteUri ev u) n = (r2, w2)"
      by (cases "buildCustomProjection ev ?w0 (length (adapters w)) (getAbsoluteUri ev u) n")
    have "by_callback w ?w0"
      by (rule by_callback_append) (simp add: init_adapter_def)
    from by_callback_trans [OF this by_callback_build [OF b]] have e02: "by_callback w w2" .
    show ?thesis
    proof (cases r2)
      case (Inl x)
      with h uv nv b have "w' = w2" by (simp add: CustomProjection_strings)
      with e02 show ?thesis by simp
    next
      case (Inr p)
      with h uv nv b have "w' = set_readyPromise (length (adapters w)) p w2"
        by (simp add: CustomProjection_strings)
      with by_callback_trans [OF e02 by_callback_set_readyPromise] show ?thesis by simp
    qed
  qed
qed

lemma by_callback_fetch_settles: "by_callback w (fetch_settles i outcome w)"
proof (cases outcome)
  case (LoadFails e)
  have "by_callback (set_status i Done w) (settle (l_promise (loads w ! i)) (Rejected e) (set_status i Done w))"
    by (rule by_callback_settle) simp
  from by_callback_trans [OF by_callback_set_status this] LoadFails show ?thesis
    by (simp add: fetch_settles_def by_callback_refl)
next
  case (Executes eff)
  then show ?thesis
    using by_callback_trans [OF by_callback_set_status by_callback_run_script]
    by (simp add: fetch_settles_def by_callback_refl)
qed

lemma by_callback_run_load: "by_callback w (run_load i w)"
proof (cases "i < length (loads w) \<and> l_status (loads w ! i) = Fetched")
  case False
  then show ?thesis by (auto simp: run_load_def by_callback_refl)
next
  case True
  let ?l = "loads w ! i"
  show ?thesis
  proof (cases "createProjectionFunctions w")
    case None
    have "by_callback (set_status i Done w) (settle (l_promise ?l)
        (Rejected (ReferenceError ''createProjectionFunctions is not defined'')) (set_status i Done w))"
      by (rule by_callback_settle) simp
    from by_callback_trans [OF by_callback_set_status this] None True show ?thesis
      by (simp add: run_load_def)
  next
    case (Some f)
    let ?w1 = "(set_status i Done w)\<lparr>loadedProjectionFunctions :=
                 (loadedProjectionFunctions w)(l_name ?l \<mapsto> f),
               trace := CachePut (l_name ?l) # trace w\<rparr>"
    obtain r2 w2 where cf: "call_factory f (l_name ?l)
        (Callback (l_adapter ?l) (l_deferred ?l) RUndefined) ?w1 = (r2, w2)"
      by (cases "call_factory f (l_name ?l) (Callback (l_adapter ?l) (l_deferred ?l) RUndefined) ?w1")
    have "by_callback w ?w1"
      by (rule by_callback_same [of _ _ "[CachePut (l_name ?l)]"]) (simp_all add: set_status_def)
    from by_callback_trans [OF this by_callback_call_factory [OF cf]] have e2: "by_callback w w2" .
    have s1: "by_callback w2 (settle (l_promise ?l) (Rejected x) w2)" for x
      by (rule by_callback_settle) simp
    have s2: "by_callback w2 (settle (l_promise ?l) (ThenReturn (l_deferred ?l) (l_adapter ?l)) w2)"
      by (rule by_callback_settle) simp
    have "run_load i w = settle (l_promise ?l) (Rejected (the r2)) w2 \<or>
          run_load i w = settle (l_promise ?l) (ThenReturn (l_deferred ?l) (l_adapter ?l)) w2"
      using True Some cf by (cases r2) (simp_all add: run_load_def)
    then show ?thesis
      using by_callback_trans [OF e2 s1] by_callback_trans [OF e2 s2] by auto
  qed
qed

lemma by_callback_callback_fires: "by_callback w (callback_fires cb pr un w)"
  by (simp add: callback_fires_def by_callback_refl by_callback_invoke_callback)

lemma by_callback_delegate: "by_callback w (snd (delegate f act x r w))"
proof (cases f)
  case (NotFun v)
  then show ?thesis by (simp add: delegate_def by_callback_refl)
next
  case (PFun g)
  obtain ex h where g: "g x r (heap w) = (ex, h)" by (cases "g x r (heap w)")
  have "by_callback w (w\<lparr>heap := h, trace := act # trace w\<rparr>)"
    by (rule by_callback_same [of _ _ "[act]"]) simp_all
  with PFun g show ?thesis by (cases ex) (simp_all add: delegate_def)
qed

lemma by_callback_result_or_new: "by_callback w (snd (result_or_new fresh r w))"
  by (auto simp: result_or_new_def by_callback_refl intro: by_callback_same [of _ _ "[]"])

lemma by_callback_project: "by_callback w (snd (project w a c r))"
proof -
  obtain res w1 where rn: "result_or_new (Cartesian3 0 0 0) r w = (res, w1)"
    by (cases "result_or_new (Cartesian3 0 0 0) r w")
  have "by_callback w w1" using by_callback_result_or_new [of w "Cartesian3 0 0 0" r] rn by simp
  from by_callback_trans [OF this by_callback_delegate] rn show ?thesis
    by (auto simp: project_def by_callback_refl split: option.splits)
qed

lemma by_callback_unproject: "by_callback w (snd (unproject w a c r))"
proof -
  obtain res w1 where rn: "result_or_new (Cartographic 0 0 0) r w = (res, w1)"
    by (cases "result_or_new (Cartographic 0 0 0) r w")
  have "by_callback w w1" using by_callback_result_or_new [of w "Cartographic 0 0 0" r] rn by simp
  from by_callback_trans [OF this by_callback_delegate] rn show ?thesis
    by (auto simp: unproject_def by_callback_refl split: option.splits)
qed

lemma by_callback_step: "by_callback w (step ev w e)"
proof (cases e)
  case (EConstruct u n el)
  then show ?thesis
    using by_callback_CustomProjection [of ev w u n el] by (cases "CustomProjection ev w u n el") simp
qed (simp_all add: by_callback_fetch_settles by_callback_run_load by_callback_callback_fires
      by_callback_run_script by_callback_refl by_callback_project by_callback_unproject)

lemma by_callback_run: "by_callback w (run ev w es)"
proof (induction es arbitrary: w)
  case Nil
  show ?case by (simp add: run_def by_callback_refl)
next
  case (Cons e es)
  have "run ev w (e # es) = run ev (step ev w e) es" by (simp add: run_def)
  with by_callback_trans [OF by_callback_step Cons.IH] show ?case by simp
qed

lemma cache_invoke_all: "loadedProjectionFunctions (invoke_all cb cs w) = loadedProjectionFunctions w"
proof (induction cs arbitrary: w)
  case Nil
  show ?case by simp
next
  case (Cons c cs)
  obtain pr un where c: "c = (pr, un)" by (cases c)
  from Cons.IH [of "invoke_callback cb pr un w"] show ?case
    by (simp add: c invoke_callback_def resolve_def)
qed

lemma call_factory_cache_trace:
  "loadedProjectionFunctions (snd (call_factory f n cb w)) = loadedProjectionFunctions w \<and>
   (\<exists>ts. trace (snd (call_factory f n cb w)) = ts @ trace w \<and>
      (\<forall>fa. f = SFactory fa \<longrightarrow> FactoryCall n \<in> set ts))"
proof (cases f)
  case (SValue v)
  then show ?thesis by (simp add: call_factory_def)
next
  case (SFactory fa)
  obtain cs ex where fa: "fa = Factory cs ex" by (cases fa)
  have "trace (snd (call_factory f n cb w)) =
      (replicate (length cs) (CallbackInvoked (cb_adapter cb)) @ [FactoryCall n]) @ trace w"
    using SFactory fa by (simp add: call_factory_def trace_invoke_all)
  moreover have "FactoryCall n \<in> set (replicate (length cs) (CallbackInvoked (cb_adapter cb)) @ [FactoryCall n])"
    by simp
  moreover have "loadedProjectionFunctions (snd (call_factory f n cb w)) = loadedProjectionFunctions w"
    using SFactory fa by (simp add: call_factory_def cache_invoke_all)
  ultimately show ?thesis by blast
qed

lemma run_load_stores_first:
  assumes "i < length (loads w)" and "l_status (loads w ! i) = Fetched"
    and "createProjectionFunctions w = Some f"
  shows "loadedProjectionFunctions (run_load i w) (l_name (loads w ! i)) = Some f \<and>
     (\<exists>ts. trace (run_load i w) = ts @ CachePut (l_name (loads w ! i)) # trace w \<and>
        (\<forall>fa. f = SFactory fa \<longrightarrow> FactoryCall (l_name (loads w ! i)) \<in> set ts))"
proof -
  let ?l = "loads w ! i"
  let ?cb = "Callback (l_adapter ?l) (l_deferred ?l) RUndefined"
  let ?w1 = "(set_status i Done w)\<lparr>loadedProjectionFunctions :=
               (loadedProjectionFunctions w)(l_name ?l \<mapsto> f),
             trace := CachePut (l_name ?l) # trace w\<rparr>"
  obtain r2 w2 where cf: "call_factory f (l_name ?l) ?cb ?w1 = (r2, w2)"
    by (cases "call_factory f (l_name ?l) ?cb ?w1")
  from call_factory_cache_trace [of f "l_name ?l" ?cb ?w1] cf
  obtain ts where c2: "loadedProjectionFunctions w2 = (loadedProjectionFunctions w)(l_name ?l \<mapsto> f)"
    and t2: "trace w2 = ts @ CachePut (l_name ?l) # trace w"
    and fc: "\<forall>fa. f = SFactory fa \<longrightarrow> FactoryCall (l_name ?l) \<in> set ts"
    by auto
  have "run_load i w = settle (l_promise ?l) (Rejected (the r2)) w2 \<or>
        run_load i w = settle (l_promise ?l) (ThenReturn (l_deferred ?l) (l_adapter ?l)) w2"
    using assms cf by (cases r2) (simp_all add: run_load_def)
  then have "loadedProjectionFunctions (run_load i w) = loadedProjectionFunctions w2 \<and>
      trace (run_load i w) = trace w2"
    by (auto simp: settle_def)
  with c2 t2 fc show ?thesis by auto
qed

text \<open>
  Claim C7. Through any sequence of operations and events the trace only grows; an
  adapter that was not ready and for which the completion callback is not called in the
  meantime is still not ready afterwards, however long the sequence; a promise cell becomes
  resolved only where a completion callback is called. On the miss path, the handler of the
  fetch stores the value of the global slot in the cache under the projection name before
  it calls it: the entry \<open>CachePut\<close> precedes the entry \<open>FactoryCall\<close> in the trace, and the
  cache holds the value afterwards whatever the call does.
\<close>

theorem readiness_only_by_callback:
  "(\<exists>ts. trace (run ev w es) = ts @ trace w) \<and>
   (trace (run ev w es) = ts @ trace w \<and> CallbackInvoked this \<notin> set ts \<and> \<not> was_ready w this \<longrightarrow>
      \<not> was_ready (run ev w es) this) \<and>
   (trace (run ev w es) = ts @ trace w \<and> (\<forall>a. CallbackInvoked a \<notin> set ts) \<and> \<not> was_resolved w d \<longrightarrow>
      \<not> was_resolved (run ev w es) d) \<and>
   (i < length (loads w) \<and> l_status (loads w ! i) = Fetched \<and> createProjectionFunctions w = Some f \<longrightarrow>
      loadedProjectionFunctions (run_load i w) (l_name (loads w ! i)) = Some f \<and>
      (\<exists>ts'. trace (run_load i w) = ts' @ CachePut (l_name (loads w ! i)) # trace w \<and>
         (\<forall>fa. f = SFactory fa \<longrightarrow> FactoryCall (l_name (loads w ! i)) \<in> set ts')))"
proof -
  from by_callback_run [of w ev es] obtain ts0 where t0: "trace (run ev w es) = ts0 @ trace w"
    and r0: "\<And>a. was_ready (run ev w es) a \<Longrightarrow> was_ready w a \<or> CallbackInvoked a \<in> set ts0"
    and p0: "\<And>d. was_resolved (run ev w es) d \<Longrightarrow> was_resolved w d \<or> (\<exists>a. CallbackInvoked a \<in> set ts0)"
    unfolding by_callback_def by blast
  have same: "ts = ts0" if "trace (run ev w es) = ts @ trace w"
    using that t0 by simp
  have a: "\<exists>ts. trace (run ev w es) = ts @ trace w" using t0 by blast
  have b: "\<not> was_ready (run ev w es) this"
    if "trace (run ev w es) = ts @ trace w \<and> CallbackInvoked this \<notin> set ts \<and> \<not> was_ready w this"
    using that same r0 [of this] by blast
  have c: "\<not> was_resolved (run ev w es) d"
    if "trace (run ev w es) = ts @ trace w \<and> (\<forall>a. CallbackInvoked a \<notin> set ts) \<and> \<not> was_resolved w d"
    using that same p0 [of d] by blast
  from a b c run_load_stores_first [of i w f] show ?thesis by blast
qed

theorem readiness_only_by_callback_witness:
  "trace (run host w_pending [EFetchSettles 0 (Executes (Some (SFactory (Factory [] None)))), ERunLoad 0,
       EProject 0 (VRef 0) VUndefined])
     = [FactoryCall ''simple'', CachePut ''simple''] @ trace w_pending \<and>
   \<not> was_ready w_pending 0 \<and>
   \<not> was_ready (run host w_pending [EFetchSettles 0 (Executes (Some (SFactory (Factory [] None)))),
       ERunLoad 0, EProject 0 (VRef 0) VUndefined]) 0 \<and>
   \<not> was_resolved (run host w_pending [EFetchSettles 0 (Executes (Some (SFactory (Factory [] None)))),
       ERunLoad 0, EProject 0 (VRef 0) VUndefined]) 0 \<and>
   l_status (loads (fetch_settles 0 (Executes (Some (SFactory simpleProjection))) w_pending) ! 0) = Fetched \<and>
   loadedProjectionFunctions
     (run_load 0 (fetch_settles 0 (Executes (Some (SFactory simpleProjection))) w_pending)) ''simple''
     = Some (SFactory simpleProjection)"
  using readiness_only_by_callback [of host w_pending
      "[EFetchSettles 0 (Executes (Some (SFactory (Factory [] None)))), ERunLoad 0,
        EProject 0 (VRef 0) VUndefined]"
      "[FactoryCall ''simple'', CachePut ''simple'']" 0 0 0 "SFactory simpleProjection"]
    readiness_only_by_callback [of host
      "fetch_settles 0 (Executes (Some (SFactory simpleProjection))) w_pending" "[]" "[]" 0 0 0
      "SFactory simpleProjection"]
  by (simp add: w_pending_eq run_def fetch_settles_def run_load_def set_status_def run_script_def
      settle_def call_factory_def project_def not_loaded_def init_adapter_def was_ready_def
      was_resolved_def)

subsection \<open>The invariant of the loader\<close>







lemma invoke_callback_fields:
  "adapters (invoke_callback cb pr un w) = (adapters w)[cb_adapter cb :=
      (adapters w ! cb_adapter cb)\<lparr>a_project := pr, a_unproject := un, a_ready := True\<rparr>]"
  "promises (invoke_callback cb pr un w) =
     (if cb_deferred cb < length (promises w) \<and> promises w ! cb_deferred cb = Pending
      then (promises w)[cb_deferred cb := Resolved (cb_value cb)] else promises w)"
  "loads (invoke_callback cb pr un w) = loads w"
  "handed (invoke_callback cb pr un w) = handed w"
  "loadedProjectionFunctions (invoke_callback cb pr un w) = loadedProjectionFunctions w"
  "createProjectionFunctions (invoke_callback cb pr un w) = createProjectionFunctions w"
  by (simp_all add: invoke_callback_def resolve_def)












lemma handed_invoke_all: "handed (invoke_all cb cs w) = handed w"
proof (induction cs arbitrary: w)
  case Nil
  show ?case by simp
next
  case (Cons c cs)
  obtain pr un where c: "c = (pr, un)" by (cases c)
  from Cons.IH [of "invoke_callback cb pr un w"] show ?case
    by (simp add: c invoke_callback_fields)
qed




























subsection \<open>The readiness promise\<close>





lemma w_second_eq:
  "w_second = \<lparr>loadedProjectionFunctions = [''simple'' \<mapsto> SFactory simpleProjection],
      createProjectionFunctions = Some (SFactory simpleProjection),
      adapters = [init_adapter host ''proj.js'' ''simple'' VUndefined
         \<lparr>a_project := PFun simple_project, a_unproject := PFun simple_unproject,
          a_ready := True, a_readyPromise := Some 1\<rparr>,
        init_adapter host ''other.js'' ''simple'' VUndefined
         \<lparr>a_project := PFun simple_project, a_unproject := PFun simple_unproject,
          a_ready := True, a_readyPromise := Some 2\<rparr>],
      promises = [Resolved RUndefined, ThenReturn 0 0, Resolved (RAdapter 1)], heap = [],
      loads = [\<lparr>l_adapter = 0, l_url = ''https://host/proj.js'', l_name = ''simple'',
                l_deferred = 0, l_promise = 1, l_status = Done\<rparr>],
      handed = [Callback 1 2 (RAdapter 1), Callback 0 0 RUndefined],
      trace = [CallbackInvoked 1, FactoryCall ''simple'', CallbackInvoked 0, FactoryCall ''simple'',
               CachePut ''simple'', FetchJsonp ''https://host/proj.js'']\<rparr>"
  unfolding w_second_def w_ready_eq
  by (simp add: CustomProjection_strings buildCustomProjection_def new_promise_def
      cache_lookup_def call_factory_def simpleProjection_def invoke_callback_def resolve_def
      set_readyPromise_def init_adapter_def)



lemma second_callback:
  "readyPromise (run host w_second
      [ECallback (Callback 0 0 RUndefined) (NotFun VNull) (NotFun VNull)]) 0 = Some 1"
  "promise_state (run host w_second
      [ECallback (Callback 0 0 RUndefined) (NotFun VNull) (NotFun VNull)]) 1 = Resolved (RAdapter 0)"
  by (simp_all add: run_def callback_fires_def invoke_callback_def resolve_def w_second_eq
      promise_state_def readyPromise_def)



end
